theory Spec2Isabelle
  imports Main "HOL-Library.AList"
begin

section \<open>Python values, dictionaries and string operations\<close>

text \<open>
  The contact records are JSON objects read by \<^verbatim>\<open>json.load\<close>: dictionaries from field names
  to JSON values. A Python string is a sequence of Unicode code points. The field names (the
  keys of the dictionaries) and the field types are only compared with the literals of the
  source; they are written as HOL strings. A dictionary is an association list (the first
  binding of a key is the one \<^verbatim>\<open>get\<close> reads); a well-formed dictionary has distinct keys.
\<close>

type_synonym codepoint = nat

type_synonym str = "codepoint list"

text \<open>A string literal of the source, as the sequence of its code points.\<close>

definition lit :: "string \<Rightarrow> str" where
  "lit cs = map of_char cs"

datatype pyval =
    PNone
  | PBool bool
  | PInt int
  | PStr str
  | PList "pyval list"
  | PDict "(string \<times> pyval) list"

type_synonym dict = "(string \<times> pyval) list"

datatype py_error = KeyError | AttributeError | TypeError | RequestFailed

text \<open>\<^verbatim>\<open>d.get(k)\<close>: the value, or \<^verbatim>\<open>None\<close> when the key is absent.\<close>

definition dget :: "dict \<Rightarrow> string \<Rightarrow> pyval" where
  "dget d k = (case map_of d k of None \<Rightarrow> PNone | Some v \<Rightarrow> v)"

text \<open>\<^verbatim>\<open>d.get(k, default)\<close>.\<close>

definition dget_default :: "dict \<Rightarrow> string \<Rightarrow> pyval \<Rightarrow> pyval" where
  "dget_default d k dflt = (case map_of d k of None \<Rightarrow> dflt | Some v \<Rightarrow> v)"

text \<open>\<^verbatim>\<open>d[k] = v\<close>.\<close>

definition dset :: "dict \<Rightarrow> string \<Rightarrow> pyval \<Rightarrow> dict" where
  "dset d k v = AList.update k v d"

text \<open>Truthiness, as \<^verbatim>\<open>if v:\<close> and \<^verbatim>\<open>not v\<close> read a value.\<close>

fun truthy :: "pyval \<Rightarrow> bool" where
  "truthy PNone = False"
| "truthy (PBool b) = b"
| "truthy (PInt i) = (i \<noteq> 0)"
| "truthy (PStr s) = (s \<noteq> [])"
| "truthy (PList xs) = (xs \<noteq> [])"
| "truthy (PDict kvs) = (kvs \<noteq> [])"

fun is_str :: "pyval \<Rightarrow> bool" where
  "is_str (PStr s) = True"
| "is_str v = False"

subsection \<open>The Unicode character database\<close>

text \<open>
  \<^verbatim>\<open>str.strip\<close>, \<^verbatim>\<open>split\<close>, \<^verbatim>\<open>upper\<close>, \<^verbatim>\<open>lower\<close>, \<^verbatim>\<open>title\<close>, \<^verbatim>\<open>isupper\<close> and the class \<^verbatim>\<open>\D\<close> of
  \<^verbatim>\<open>re\<close> read the character database of the interpreter, which is not code of this
  repository. Its rows for the code points below 256 (ASCII and Latin-1) are written out in
  the definitions below. The rows of the other code points are not reproduced: the constants
  \<open>unicode_isspace\<close> to \<open>unicode_lower\<close> stand for them and nothing is known about them, so
  that whatever is proved below holds for every content of these rows. The lower-case
  mapping takes the characters preceding and following the one it maps, as \<^verbatim>\<open>lower_ucs4\<close> of
  the interpreter does (the mapping of a capital sigma depends on them).
\<close>

definition unicode_isspace :: "codepoint \<Rightarrow> bool" where
  "unicode_isspace c = undefined c"

definition unicode_isdecimal :: "codepoint \<Rightarrow> bool" where
  "unicode_isdecimal c = undefined c"

definition unicode_isupper :: "codepoint \<Rightarrow> bool" where
  "unicode_isupper c = undefined c"

definition unicode_islower :: "codepoint \<Rightarrow> bool" where
  "unicode_islower c = undefined c"

definition unicode_istitle :: "codepoint \<Rightarrow> bool" where
  "unicode_istitle c = undefined c"

definition unicode_iscased :: "codepoint \<Rightarrow> bool" where
  "unicode_iscased c = undefined c"

definition unicode_upper :: "codepoint \<Rightarrow> str" where
  "unicode_upper c = undefined c"

definition unicode_title :: "codepoint \<Rightarrow> str" where
  "unicode_title c = undefined c"

definition unicode_lower :: "str \<Rightarrow> codepoint \<Rightarrow> str \<Rightarrow> str" where
  "unicode_lower preceding c following = undefined preceding c following"

text \<open>\<^verbatim>\<open>c.isspace()\<close>: the controls 9 to 13 and 28 to 31, the space, NEL and the no-break space.\<close>

definition isspace_char :: "codepoint \<Rightarrow> bool" where
  "isspace_char c =
     (if c < 256 then (9 \<le> c \<and> c \<le> 13) \<or> (28 \<le> c \<and> c \<le> 32) \<or> c = 133 \<or> c = 160
      else unicode_isspace c)"

text \<open>The class \<^verbatim>\<open>\d\<close> of \<^verbatim>\<open>re\<close> on a \<^verbatim>\<open>str\<close>: the decimal digits.\<close>

definition isdecimal_char :: "codepoint \<Rightarrow> bool" where
  "isdecimal_char c = (if c < 256 then 48 \<le> c \<and> c \<le> 57 else unicode_isdecimal c)"

text \<open>
  Upper-case letters below 256: A to Z, and 192 to 222 without the multiplication sign 215.
  Lower-case ones: a to z, the ordinal indicators 170 and 186, the micro sign 181, and 223 to
  255 without the division sign 247. No title-case letter.
\<close>

definition isupper_char :: "codepoint \<Rightarrow> bool" where
  "isupper_char c =
     (if c < 256 then (65 \<le> c \<and> c \<le> 90) \<or> (192 \<le> c \<and> c \<le> 222 \<and> c \<noteq> 215)
      else unicode_isupper c)"

definition islower_char :: "codepoint \<Rightarrow> bool" where
  "islower_char c =
     (if c < 256 then (97 \<le> c \<and> c \<le> 122) \<or> c = 170 \<or> c = 181 \<or> c = 186 \<or> (223 \<le> c \<and> c \<noteq> 247)
      else unicode_islower c)"

definition istitle_char :: "codepoint \<Rightarrow> bool" where
  "istitle_char c = (if c < 256 then False else unicode_istitle c)"

definition iscased :: "codepoint \<Rightarrow> bool" where
  "iscased c = (if c < 256 then isupper_char c \<or> islower_char c else unicode_iscased c)"

text \<open>
  \<^verbatim>\<open>c.upper()\<close>, a string: the sharp s (223) gives SS, the micro sign (181) and the y with
  diaeresis (255) have their capitals above 255.
\<close>

definition upper_char :: "codepoint \<Rightarrow> str" where
  "upper_char c =
     (if c < 256 then
        (if (97 \<le> c \<and> c \<le> 122) \<or> (224 \<le> c \<and> c \<le> 254 \<and> c \<noteq> 247) then [c - 32]
         else if c = 181 then [924]
         else if c = 223 then [83, 83]
         else if c = 255 then [376]
         else [c])
      else unicode_upper c)"

text \<open>The title-case mapping: the upper-case one, except that the sharp s gives Ss.\<close>

definition title_char :: "codepoint \<Rightarrow> str" where
  "title_char c =
     (if c < 256 then (if c = 223 then [83, 115] else upper_char c)
      else unicode_title c)"

definition lower_char :: "str \<Rightarrow> codepoint \<Rightarrow> str \<Rightarrow> str" where
  "lower_char preceding c following =
     (if c < 256 then [if isupper_char c then c + 32 else c]
      else unicode_lower preceding c following)"

subsection \<open>String methods\<close>

definition upper :: "str \<Rightarrow> str" where
  "upper s = concat (map upper_char s)"

fun lower_from :: "str \<Rightarrow> str \<Rightarrow> str" where
  "lower_from preceding [] = []"
| "lower_from preceding (c # cs) = lower_char preceding c cs @ lower_from (preceding @ [c]) cs"

definition lower :: "str \<Rightarrow> str" where
  "lower s = lower_from [] s"

text \<open>\<^verbatim>\<open>str.strip()\<close>: leading and trailing whitespace removed.\<close>

definition strip :: "str \<Rightarrow> str" where
  "strip s = rev (dropWhile isspace_char (rev (dropWhile isspace_char s)))"

text \<open>
  \<^verbatim>\<open>str.title()\<close>: a character that follows a cased character is lower-cased, any other
  character is title-cased.
\<close>

fun title_from :: "bool \<Rightarrow> str \<Rightarrow> str \<Rightarrow> str" where
  "title_from previous_is_cased preceding [] = []"
| "title_from previous_is_cased preceding (c # cs) =
     (if previous_is_cased then lower_char preceding c cs else title_char c)
       @ title_from (iscased c) (preceding @ [c]) cs"

definition title :: "str \<Rightarrow> str" where
  "title s = title_from False [] s"

text \<open>
  \<^verbatim>\<open>str.isupper()\<close>: at least one upper-case character, and no lower-case or title-case one.
\<close>

definition isupper :: "str \<Rightarrow> bool" where
  "isupper s = ((\<exists>c \<in> set s. isupper_char c) \<and> (\<forall>c \<in> set s. \<not> islower_char c \<and> \<not> istitle_char c))"

definition startswith :: "str \<Rightarrow> str \<Rightarrow> bool" where
  "startswith s p = (take (length p) s = p)"

text \<open>\<^verbatim>\<open>str.split()\<close> without argument: the maximal runs of non-whitespace.\<close>

fun split_from :: "str \<Rightarrow> str \<Rightarrow> str list" where
  "split_from cur [] = (if cur = [] then [] else [cur])"
| "split_from cur (c # cs) =
     (if isspace_char c
      then (if cur = [] then split_from [] cs else cur # split_from [] cs)
      else split_from (cur @ [c]) cs)"

definition split :: "str \<Rightarrow> str list" where
  "split s = split_from [] s"

text \<open>\<^verbatim>\<open>' '.join(ws)\<close>.\<close>

fun join_space :: "str list \<Rightarrow> str" where
  "join_space [] = []"
| "join_space [w] = w"
| "join_space (w # ws) = w @ lit '' '' @ join_space ws"

section \<open>Field formatting (\<^verbatim>\<open>update_airtable_with_idi_data.py\<close>)\<close>

definition prefixes :: "str list" where
  "prefixes = [lit ''Mc'', lit ''Mac'', lit [CHR ''O'', CHR 0x27], lit ''De'', lit ''Van'',
               lit ''Von'', lit ''La'', lit ''Le'']"

text \<open>The body of the loop over \<^verbatim>\<open>prefixes\<close> in \<^verbatim>\<open>title_case_name\<close>.\<close>

definition prefix_step :: "str \<Rightarrow> str \<Rightarrow> str" where
  "prefix_step name prefix =
     (if startswith name (title prefix)
      then (let rest = drop (length prefix) name in
            if rest \<noteq> [] then prefix @ upper [hd rest] @ tl rest else name)
      else name)"

definition title_case_name :: "str \<Rightarrow> str" where
  "title_case_name name =
     (if name = [] then name else foldl prefix_step (title name) prefixes)"

definition abbreviations :: "str list" where
  "abbreviations = map lit [''ST'', ''AVE'', ''RD'', ''DR'', ''LN'', ''CT'', ''PL'', ''WAY'', ''BLVD'',
                    ''N'', ''S'', ''E'', ''W'', ''NE'', ''NW'', ''SE'', ''SW'', ''US'', ''RT'', ''HWY'']"

definition format_word :: "str \<Rightarrow> str" where
  "format_word word =
     (if upper word \<in> set abbreviations then upper word
      else if isupper word \<and> length word > 1 then title word
      else word)"

definition title_case_address :: "str \<Rightarrow> str" where
  "title_case_address address =
     (if address = [] then address else join_space (map format_word (split address)))"

definition clean_and_format_text :: "pyval \<Rightarrow> string \<Rightarrow> pyval" where
  "clean_and_format_text text field_type =
     (case text of
        PStr s \<Rightarrow>
          (if s = [] then text
           else let t = strip s in
             if field_type = ''email'' then PStr (lower t)
             else if field_type = ''name'' then PStr (title_case_name t)
             else if field_type = ''relation'' then PStr (title t)
             else if field_type = ''address'' then PStr (title_case_address t)
             else if field_type = ''general'' then
               (if isupper t \<and> length t > 2 then PStr (title t) else PStr t)
             else PStr t)
      | _ \<Rightarrow> text)"

text \<open>
  \<^verbatim>\<open>format_phone_number\<close>: a falsy value is returned as it is; \<^verbatim>\<open>re.sub\<close> raises
  \<^verbatim>\<open>TypeError\<close> on a truthy value that is not a string.
\<close>

definition format_phone_number :: "pyval \<Rightarrow> py_error + pyval" where
  "format_phone_number phone =
     (if \<not> truthy phone then Inr phone
      else case phone of
        PStr s \<Rightarrow>
          (let ds = filter isdecimal_char s in
           if length ds = 10
           then Inr (PStr (lit ''('' @ take 3 ds @ lit '') '' @ take 3 (drop 3 ds)
                           @ lit ''-'' @ drop 6 ds))
           else if length ds = 11 \<and> take 1 ds = lit ''1''
           then Inr (PStr (lit ''('' @ take 3 (drop 1 ds) @ lit '') '' @ take 3 (drop 4 ds)
                           @ lit ''-'' @ drop 7 ds))
           else Inr phone)
      | _ \<Rightarrow> Inl TypeError)"

definition get_field_type :: "string \<Rightarrow> string" where
  "get_field_type field_name =
     (if field_name \<in> set [''First Name'', ''Last Name'', ''Middle Name'', ''Maiden Name'']
      then ''name''
      else if field_name = ''Email'' then ''email''
      else if field_name = ''Relation to Owner'' then ''relation''
      else ''general'')"

section \<open>Exceptions and fallible reads\<close>

text \<open>
  A Python expression that can raise is a value of \<open>py_error + 'a\<close>; \<open>bind_err\<close> sequences two
  of them, the first exception ending the evaluation.
\<close>

fun bind_err :: "py_error + 'a \<Rightarrow> ('a \<Rightarrow> py_error + 'b) \<Rightarrow> py_error + 'b" where
  "bind_err (Inl e) f = Inl e"
| "bind_err (Inr x) f = f x"

text \<open>\<^verbatim>\<open>v or d\<close>.\<close>

definition or_else :: "pyval \<Rightarrow> pyval \<Rightarrow> pyval" where
  "or_else v d = (if truthy v then v else d)"

text \<open>\<^verbatim>\<open>v.strip()\<close>: only a string has the method.\<close>

fun str_strip :: "pyval \<Rightarrow> py_error + str" where
  "str_strip (PStr s) = Inr (strip s)"
| "str_strip v = Inl AttributeError"

text \<open>
  The operand of an integer subtraction: an \<^verbatim>\<open>int\<close>, or a \<^verbatim>\<open>bool\<close> (a subclass of \<^verbatim>\<open>int\<close>);
  anything else raises \<^verbatim>\<open>TypeError\<close>. \<open>abs_difference a b\<close> is \<^verbatim>\<open>abs(a - b)\<close>.
\<close>

fun as_number :: "pyval \<Rightarrow> py_error + int" where
  "as_number (PInt i) = Inr i"
| "as_number (PBool b) = Inr (if b then 1 else 0)"
| "as_number v = Inl TypeError"

definition abs_difference :: "pyval \<Rightarrow> pyval \<Rightarrow> py_error + int" where
  "abs_difference a b =
     bind_err (as_number a) (\<lambda>x. bind_err (as_number b) (\<lambda>y. Inr \<bar>x - y\<bar>))"

text \<open>\<^verbatim>\<open>(contact.get(k) or '').strip()\<close>.\<close>

definition stripped :: "dict \<Rightarrow> string \<Rightarrow> py_error + str" where
  "stripped contact k = str_strip (or_else (dget contact k) (PStr []))"

text \<open>\<^verbatim>\<open>contact.get("Relation to Owner", "").strip().lower()\<close>.\<close>

definition relation_to_owner :: "dict \<Rightarrow> py_error + str" where
  "relation_to_owner contact =
     bind_err (str_strip (dget_default contact ''Relation to Owner'' (PStr []))) (\<lambda>r. Inr (lower r))"

section \<open>Field merge engine\<close>

record airtable_record =
  rec_id :: str
  rec_fields :: dict

fun is_field_empty :: "pyval \<Rightarrow> bool" where
  "is_field_empty PNone = True"
| "is_field_empty (PStr s) = (strip s = [])"
| "is_field_empty (PInt i) = (i = 0)"
| "is_field_empty (PBool b) = (\<not> b)"
| "is_field_empty v = False"

definition excluded_fields :: "string list" where
  "excluded_fields = [''Contact'', ''Record ID'', ''ID'', ''Full Name'', ''First and Last'',
     ''Middle Initial'', ''Addresses'', ''Communications'', ''Own'', ''Foreclosures'',
     ''Auction (from Foreclosures)'', ''Claims'', ''Loans'']"

definition merge_fields :: "string list" where
  "merge_fields = [''First Name'', ''Last Name'', ''Middle Name'', ''Suffix'', ''Age'',
     ''Phone'', ''Email'', ''Relation to Owner'', ''Company Name'', ''Maiden Name'',
     ''Deceased'', ''Bankruptcy'', ''Sex'', ''Birth Year'', ''DOB'', ''In Jail'']"

definition copy_step :: "dict \<Rightarrow> string \<times> pyval \<Rightarrow> dict" where
  "copy_step merged fv = (if fst fv \<notin> set excluded_fields then dset merged (fst fv) (snd fv) else merged)"

fun merge_loop :: "dict \<Rightarrow> dict \<Rightarrow> string list \<Rightarrow> dict \<Rightarrow> py_error + dict" where
  "merge_loop new_contact existing_fields [] merged = Inr merged"
| "merge_loop new_contact existing_fields (field # fs) merged =
     (let new_value = dget new_contact field;
          existing_value = dget existing_fields field
      in if is_field_empty existing_value \<and> truthy new_value then
           (if field = ''Phone'' then
              (case format_phone_number new_value of
                 Inl e \<Rightarrow> Inl e
               | Inr v \<Rightarrow> merge_loop new_contact existing_fields fs (dset merged field v))
            else merge_loop new_contact existing_fields fs
                   (dset merged field (clean_and_format_text new_value (get_field_type field))))
         else if truthy existing_value then
           merge_loop new_contact existing_fields fs (dset merged field existing_value)
         else merge_loop new_contact existing_fields fs merged)"

definition merge_contact_data :: "dict \<Rightarrow> airtable_record \<Rightarrow> py_error + dict" where
  "merge_contact_data new_contact existing_contact =
     (let existing_fields = rec_fields existing_contact;
          merged_fields = [(''IDI'', PBool True), (''Traced'', PBool True),
                           (''Entity Type'', PStr (lit ''Person''))];
          merged_fields = foldl copy_step merged_fields existing_fields
      in merge_loop new_contact existing_fields merge_fields merged_fields)"

text \<open>
  What the loop over \<^verbatim>\<open>merge_fields\<close> leaves under one field, given what the dictionary
  held there before: the three branches of the loop body, read off for one field.
\<close>

definition merged_value :: "dict \<Rightarrow> dict \<Rightarrow> string \<Rightarrow> pyval option \<Rightarrow> pyval option" where
  "merged_value new ex field previous =
    (if is_field_empty (dget ex field) \<and> truthy (dget new field) then
       (if field = ''Phone'' then
          (case format_phone_number (dget new field) of Inl e \<Rightarrow> None | Inr v \<Rightarrow> Some v)
        else Some (clean_and_format_text (dget new field) (get_field_type field)))
     else if truthy (dget ex field) then Some (dget ex field) else previous)"

text \<open>
  The formatting by field class in the specification's words, to be compared with what the
  merge writes. Phone: the non-digits are dropped; ten digits are written \<^verbatim>\<open>(AAA) BBB-CCCC\<close>,
  eleven digits with a leading 1 give the same from the last ten, anything else is left as it
  is. Every other text is trimmed, and then: a name field is title-cased, and the character
  after a leading prefix Mc, Mac, O', De, Van, Von, La, Le is upper-cased; the email is
  lower-cased; the relation to the owner is title-cased; any other text is title-cased when
  it is all upper-case and longer than 2 characters, and unchanged otherwise. A value that is
  not a string has no formatting.
\<close>

definition national_format :: "str \<Rightarrow> str" where
  "national_format ds = lit ''('' @ take 3 ds @ lit '') '' @ take 3 (drop 3 ds) @ lit ''-'' @ drop 6 ds"

definition phone_format :: "str \<Rightarrow> str" where
  "phone_format s =
     (let ds = filter isdecimal_char s in
      if length ds = 10 then national_format ds
      else if length ds = 11 \<and> take 1 ds = lit ''1'' then national_format (drop 1 ds)
      else s)"

definition capitalised_after_prefix :: "str \<Rightarrow> str" where
  "capitalised_after_prefix t =
     (case find (startswith t) prefixes of
        None \<Rightarrow> t
      | Some p \<Rightarrow> (case drop (length p) t of [] \<Rightarrow> t | c # r \<Rightarrow> p @ upper [c] @ r))"

definition name_fields :: "string list" where
  "name_fields = [''First Name'', ''Last Name'', ''Middle Name'', ''Maiden Name'']"

definition formatted :: "string \<Rightarrow> pyval \<Rightarrow> pyval" where
  "formatted field v =
     (case v of
        PStr s \<Rightarrow>
          PStr (if field = ''Phone'' then phone_format s
                else let t = strip s in
                  if field \<in> set name_fields then capitalised_after_prefix (title t)
                  else if field = ''Email'' then lower t
                  else if field = ''Relation to Owner'' then title t
                  else if isupper t \<and> length t > 2 then title t
                  else t)
      | _ \<Rightarrow> v)"

section \<open>Relation graph builder (\<^verbatim>\<open>test_3_contacts.py\<close>)\<close>

text \<open>
  \<^verbatim>\<open>add_contact_and_relations\<close> is a closure over \<^verbatim>\<open>contact_by_id\<close> (read) and over
  \<^verbatim>\<open>processed_ids\<close> and \<^verbatim>\<open>contacts_to_process\<close> (mutated): the two mutated variables are the
  state, passed and returned. \<^verbatim>\<open>contact['ID']\<close> raises \<^verbatim>\<open>KeyError\<close> on a missing key, and a
  truthy \<^verbatim>\<open>Relations\<close> that cannot be iterated raises \<^verbatim>\<open>TypeError\<close>; an exception ends the
  traversal. Identifiers are compared by equality of values (they are hashable JSON values:
  integers in the artifact).
\<close>

record network_state =
  processed_ids :: "pyval set"
  contacts_to_process :: "(dict \<times> int) list"

definition getitem :: "dict \<Rightarrow> string \<Rightarrow> py_error + pyval" where
  "getitem d k = (case map_of d k of None \<Rightarrow> Inl KeyError | Some v \<Rightarrow> Inr v)"

text \<open>\<^verbatim>\<open>for x in v\<close>: the elements of a list, the characters of a string, the keys of a dict.\<close>

fun iterate :: "pyval \<Rightarrow> py_error + pyval list" where
  "iterate (PList xs) = Inr xs"
| "iterate (PStr s) = Inr (map (\<lambda>c. PStr [c]) s)"
| "iterate (PDict kvs) = Inr (map (\<lambda>kv. PStr (lit (fst kv))) kvs)"
| "iterate v = Inl TypeError"

text \<open>
  The recursive function and its \<^verbatim>\<open>for relation_id in relations\<close> loop, which calls it at
  \<^verbatim>\<open>depth + 1\<close> on every relation found in \<^verbatim>\<open>contact_by_id\<close>.
\<close>

function add_contact_and_relations ::
    "(pyval \<Rightarrow> dict option) \<Rightarrow> dict \<Rightarrow> int \<Rightarrow> int \<Rightarrow> network_state \<Rightarrow> py_error + network_state"
  and add_relations ::
    "(pyval \<Rightarrow> dict option) \<Rightarrow> pyval list \<Rightarrow> int \<Rightarrow> int \<Rightarrow> network_state \<Rightarrow> py_error + network_state"
where
  "add_contact_and_relations contact_by_id contact depth max_depth st =
     (case getitem contact ''ID'' of
        Inl e \<Rightarrow> Inl e
      | Inr contact_id \<Rightarrow>
          if contact_id \<in> processed_ids st \<or> depth > max_depth then Inr st
          else
            let st' = \<lparr>processed_ids = insert contact_id (processed_ids st),
                       contacts_to_process = contacts_to_process st @ [(contact, depth)]\<rparr>;
                relations = dget_default contact ''Relations'' (PList [])
            in if truthy relations then
                 (case iterate relations of
                    Inl e \<Rightarrow> Inl e
                  | Inr relation_ids \<Rightarrow>
                      add_relations contact_by_id relation_ids (depth + 1) max_depth st')
               else Inr st')"
| "add_relations contact_by_id [] depth max_depth st = Inr st"
| "add_relations contact_by_id (relation_id # relation_ids) depth max_depth st =
     (case contact_by_id relation_id of
        None \<Rightarrow> add_relations contact_by_id relation_ids depth max_depth st
      | Some related \<Rightarrow>
          (case add_contact_and_relations contact_by_id related depth max_depth st of
             Inl e \<Rightarrow> Inl e
           | Inr st' \<Rightarrow> add_relations contact_by_id relation_ids depth max_depth st'))"
  by pat_completeness auto
termination
  by (relation "measures [\<lambda>x. case x of
          Inl (cbi, c, d, md, st) \<Rightarrow> (if d > md then 1 else 2 * nat (md - d) + 3)
        | Inr (cbi, rs, d, md, st) \<Rightarrow> (if d > md then 2 else 2 * nat (md - d) + 4),
        \<lambda>x. case x of Inl _ \<Rightarrow> 0 | Inr (cbi, rs, d, md, st) \<Rightarrow> length rs]")
     auto

text \<open>
  \<^verbatim>\<open>for contact in initial_contacts: add_contact_and_relations(contact)\<close>, from depth 0. The
  source leaves \<^verbatim>\<open>max_depth\<close> at its default 2; it is a parameter here.
\<close>

fun discover ::
    "(pyval \<Rightarrow> dict option) \<Rightarrow> dict list \<Rightarrow> int \<Rightarrow> network_state \<Rightarrow> py_error + network_state" where
  "discover contact_by_id [] max_depth st = Inr st"
| "discover contact_by_id (contact # initial_contacts) max_depth st =
     (case add_contact_and_relations contact_by_id contact 0 max_depth st of
        Inl e \<Rightarrow> Inl e
      | Inr st' \<Rightarrow> discover contact_by_id initial_contacts max_depth st')"

definition discover_network ::
    "(pyval \<Rightarrow> dict option) \<Rightarrow> dict list \<Rightarrow> int \<Rightarrow> py_error + (dict \<times> int) list" where
  "discover_network contact_by_id initial_contacts max_depth =
     (case discover contact_by_id initial_contacts max_depth
             \<lparr>processed_ids = {}, contacts_to_process = []\<rparr> of
        Inl e \<Rightarrow> Inl e
      | Inr st \<Rightarrow> Inr (contacts_to_process st))"

section \<open>The contact repository and the relationship propagator\<close>

text \<open>
  The Airtable REST interface is an external collaborator. The requests the code sends are a
  name search (the \<^verbatim>\<open>filterByFormula\<close> GET of \<^verbatim>\<open>_search_contacts_by_name\<close>), a POST creating a
  record in a table, and a PATCH of a record of a table; the last two carry the \<^verbatim>\<open>fields\<close>
  object. A repository is any function from the requests sent so far and the current request
  to a response; every request is appended to a log, so that a statement about the calls a
  function issues is a statement about the log. \<^verbatim>\<open>RequestException\<close> is what
  \<^verbatim>\<open>raise_for_status\<close> raises on a rejected call; a search answers with records, a write with
  the record written (its \<^verbatim>\<open>id\<close> is read back).
\<close>

datatype request =
    Search str str
  | Create string dict
  | Update string str dict

datatype response = RequestException | Records "airtable_record list" | Written airtable_record

type_synonym repository = "request list \<Rightarrow> request \<Rightarrow> response"

text \<open>\<^verbatim>\<open>contact_id_mapping\<close>: the dictionary from internal identifiers to record ids.\<close>

type_synonym id_mapping = "(pyval \<times> str) list"

definition contacts_table :: string where
  "contacts_table = ''tblqcysYQ2KEtaw6s''"


text \<open>\<^verbatim>\<open>make_request\<close> (and the \<^verbatim>\<open>requests.get\<close> of the search): the response, and the log.\<close>

definition send :: "repository \<Rightarrow> request \<Rightarrow> request list \<Rightarrow> response \<times> request list" where
  "send repo req log = (repo log req, log @ [req])"

text \<open>
  The loop \<^verbatim>\<open>for relation_id in ...: if relation_id in contact_id_mapping: append\<close>.
\<close>

definition translate_relations :: "id_mapping \<Rightarrow> pyval list \<Rightarrow> pyval list" where
  "translate_relations contact_id_mapping relation_ids =
     List.map_filter (\<lambda>relation_id. map_option PStr (map_of contact_id_mapping relation_id)) relation_ids"

text \<open>
  \<^verbatim>\<open>update_bidirectional_relations\<close>: the loop over \<^verbatim>\<open>all_contacts_with_ids\<close>, with the counter
  \<^verbatim>\<open>relations_updated\<close>. A rejected update is caught and printed; the loop goes on.
\<close>

fun bidirectional_loop ::
    "repository \<Rightarrow> id_mapping \<Rightarrow> (dict \<times> int) list \<Rightarrow> int \<Rightarrow> request list
       \<Rightarrow> (py_error + int) \<times> request list" where
  "bidirectional_loop repo contact_id_mapping [] relations_updated log = (Inr relations_updated, log)"
| "bidirectional_loop repo contact_id_mapping ((idi_contact, depth) # rest) relations_updated log =
     (case getitem idi_contact ''ID'' of
        Inl e \<Rightarrow> (Inl e, log)
      | Inr contact_id \<Rightarrow>
          (case map_of contact_id_mapping contact_id of
             None \<Rightarrow> bidirectional_loop repo contact_id_mapping rest relations_updated log
           | Some contact_record_id \<Rightarrow>
               if truthy (dget idi_contact ''Relations'') then
                 (case iterate (dget idi_contact ''Relations'') of
                    Inl e \<Rightarrow> (Inl e, log)
                  | Inr relation_ids \<Rightarrow>
                      let relation_record_ids = translate_relations contact_id_mapping relation_ids in
                      if relation_record_ids \<noteq> [] then
                        (case send repo (Update contacts_table contact_record_id
                                           [(''Relations'', PList relation_record_ids)]) log of
                           (RequestException, log') \<Rightarrow>
                             bidirectional_loop repo contact_id_mapping rest relations_updated log'
                         | (_, log') \<Rightarrow>
                             bidirectional_loop repo contact_id_mapping rest (relations_updated + 1) log')
                      else bidirectional_loop repo contact_id_mapping rest relations_updated log)
               else bidirectional_loop repo contact_id_mapping rest relations_updated log))"

definition update_bidirectional_relations ::
    "repository \<Rightarrow> (dict \<times> int) list \<Rightarrow> id_mapping \<Rightarrow> request list
       \<Rightarrow> (py_error + int) \<times> request list" where
  "update_bidirectional_relations repo all_contacts_with_ids contact_id_mapping log =
     bidirectional_loop repo contact_id_mapping all_contacts_with_ids 0 log"

text \<open>The relation list the repository holds for a record after the calls of a log: the
  \<^verbatim>\<open>Relations\<close> of the last update of that record that sets them.\<close>

fun persisted_relations :: "request list \<Rightarrow> str \<Rightarrow> pyval option" where
  "persisted_relations [] record_id = None"
| "persisted_relations (Update table rid data # log) record_id =
     (case persisted_relations log record_id of
        Some v \<Rightarrow> Some v
      | None \<Rightarrow> if table = contacts_table \<and> rid = record_id then map_of data ''Relations'' else None)"
| "persisted_relations (_ # log) record_id = persisted_relations log record_id"

text \<open>A repository that accepts every call.\<close>

definition accepting :: repository where
  "accepting log req = Written \<lparr>rec_id = lit ''rec'', rec_fields = []\<rparr>"

section \<open>Deduplicator (\<^verbatim>\<open>deduplicate_contacts\<close>, \<^verbatim>\<open>test_3_contacts.py\<close>)\<close>

text \<open>
  \<^verbatim>\<open>stored_contact == existing_contact\<close> compares two dictionaries: the same keys with equal
  values, whatever the order.
\<close>

definition dict_eq :: "dict \<Rightarrow> dict \<Rightarrow> bool" where
  "dict_eq a b = list_all (\<lambda>k. map_of a k = map_of b k) (map fst a @ map fst b)"

text \<open>\<^verbatim>\<open>sum(1 for v in contact.values() if v and v != '')\<close>: the truthy values.\<close>

definition count_fields :: "dict \<Rightarrow> nat" where
  "count_fields contact = length (filter (\<lambda>kv. truthy (snd kv)) contact)"

text \<open>
  The scan \<^verbatim>\<open>for i, (stored_contact, stored_depth) in enumerate(deduplicated)\<close> that replaces
  the first stored record equal to the existing one, then breaks.
\<close>

fun replace_stored :: "dict \<Rightarrow> dict \<times> int \<Rightarrow> (dict \<times> int) list \<Rightarrow> (dict \<times> int) list" where
  "replace_stored existing_contact new [] = []"
| "replace_stored existing_contact new (stored # rest) =
     (if dict_eq (fst stored) existing_contact then new # rest
      else stored # replace_stored existing_contact new rest)"

record dedup_state =
  seen_contacts :: "str \<Rightarrow> (dict \<times> int) option"
  deduplicated :: "(dict \<times> int) list"

text \<open>\<^verbatim>\<open>f"{first_name.lower()}|{last_name.lower()}"\<close>.\<close>

definition name_key :: "str \<Rightarrow> str \<Rightarrow> str" where
  "name_key first_name last_name = lower first_name @ lit ''|'' @ lower last_name"

text \<open>\<^verbatim>\<open>deduplicated.append((contact, depth)); continue\<close>.\<close>

definition keep_both :: "dict \<times> int \<Rightarrow> dedup_state \<Rightarrow> dedup_state" where
  "keep_both cd st = st\<lparr>deduplicated := deduplicated st @ [cd]\<rparr>"

text \<open>The replacing scan followed by \<^verbatim>\<open>seen_contacts[key] = (contact, depth)\<close>.\<close>

definition replace_existing :: "str \<Rightarrow> dict \<Rightarrow> dict \<times> int \<Rightarrow> dedup_state \<Rightarrow> dedup_state" where
  "replace_existing key existing_contact cd st =
     \<lparr>seen_contacts = (seen_contacts st)(key \<mapsto> cd),
      deduplicated = replace_stored existing_contact cd (deduplicated st)\<rparr>"

text \<open>
  The "same person" part of the loop body: Owner first, then the count of non-empty fields,
  a tie keeping the existing record.
\<close>

definition resolve_duplicate ::
    "str \<Rightarrow> dict \<times> int \<Rightarrow> dict \<Rightarrow> dedup_state \<Rightarrow> py_error + dedup_state" where
  "resolve_duplicate key cd existing_contact st =
     bind_err (relation_to_owner (fst cd)) (\<lambda>current_relation.
     bind_err (relation_to_owner existing_contact) (\<lambda>existing_relation.
       if current_relation = lit ''owner'' \<and> existing_relation \<noteq> lit ''owner'' then
         Inr (replace_existing key existing_contact cd st)
       else if existing_relation = lit ''owner'' \<and> current_relation \<noteq> lit ''owner'' then Inr st
       else if count_fields (fst cd) > count_fields existing_contact then
         Inr (replace_existing key existing_contact cd st)
       else Inr st))"

text \<open>One iteration of \<^verbatim>\<open>for contact, depth in contacts_with_depth\<close>.\<close>

definition dedup_step :: "dict \<times> int \<Rightarrow> dedup_state \<Rightarrow> py_error + dedup_state" where
  "dedup_step cd st =
     (let contact = fst cd in
      bind_err (stripped contact ''First Name'') (\<lambda>first_name.
      bind_err (stripped contact ''Last Name'') (\<lambda>last_name.
      bind_err (stripped contact ''Middle Name'') (\<lambda>middle_name.
      bind_err (stripped contact ''Suffix'') (\<lambda>suffix.
        let age = dget contact ''Age''; key = name_key first_name last_name in
        case seen_contacts st key of
          None \<Rightarrow> Inr \<lparr>seen_contacts = (seen_contacts st)(key \<mapsto> cd),
                        deduplicated = deduplicated st @ [cd]\<rparr>
        | Some (existing_contact, existing_depth) \<Rightarrow>
            bind_err (stripped existing_contact ''Middle Name'') (\<lambda>existing_middle.
            bind_err (stripped existing_contact ''Suffix'') (\<lambda>existing_suffix.
              let existing_age = dget existing_contact ''Age'' in
              if suffix \<noteq> [] \<and> existing_suffix \<noteq> [] \<and> lower suffix \<noteq> lower existing_suffix
              then Inr (keep_both cd st)
              else if truthy age \<and> truthy existing_age then
                bind_err (abs_difference age existing_age) (\<lambda>diff.
                  if diff > 2 then Inr (keep_both cd st)
                  else resolve_duplicate key cd existing_contact st)
              else resolve_duplicate key cd existing_contact st)))))))"

fun dedup_loop :: "(dict \<times> int) list \<Rightarrow> dedup_state \<Rightarrow> py_error + dedup_state" where
  "dedup_loop [] st = Inr st"
| "dedup_loop (cd # rest) st = bind_err (dedup_step cd st) (dedup_loop rest)"

definition deduplicate_contacts :: "(dict \<times> int) list \<Rightarrow> py_error + (dict \<times> int) list" where
  "deduplicate_contacts contacts_with_depth =
     bind_err (dedup_loop contacts_with_depth \<lparr>seen_contacts = Map.empty, deduplicated = []\<rparr>)
       (\<lambda>st. Inr (deduplicated st))"

text \<open>
  The name key of a contact, as the loop body computes it, for the statements below.
\<close>

definition normalized_name :: "dict \<Rightarrow> py_error + str" where
  "normalized_name contact =
     bind_err (stripped contact ''First Name'') (\<lambda>first_name.
     bind_err (stripped contact ''Last Name'') (\<lambda>last_name.
       Inr (name_key first_name last_name)))"

text \<open>
  A contact on which no read of the loop body raises: its names, middle name, suffix and
  relation label are strings (or empty, where \<^verbatim>\<open>or ''\<close> guards the read), and its age is a
  number or empty.
\<close>

definition readable :: "dict \<Rightarrow> bool" where
  "readable contact =
     (\<not> isl (stripped contact ''First Name'') \<and> \<not> isl (stripped contact ''Last Name'') \<and>
      \<not> isl (stripped contact ''Middle Name'') \<and> \<not> isl (stripped contact ''Suffix'') \<and>
      \<not> isl (relation_to_owner contact) \<and>
      (\<not> truthy (dget contact ''Age'') \<or> \<not> isl (as_number (dget contact ''Age''))))"


section \<open>Identity matcher\<close>

text \<open>
  \<^verbatim>\<open>_search_contacts_by_name\<close>: the search request; a rejected call is caught and printed, and
  the result is the empty list. An answer without \<^verbatim>\<open>records\<close> gives the empty list too.
\<close>

definition search_contacts_by_name ::
    "repository \<Rightarrow> str \<Rightarrow> str \<Rightarrow> request list \<Rightarrow> airtable_record list \<times> request list" where
  "search_contacts_by_name repo first_name last_name log =
     (case send repo (Search first_name last_name) log of
        (Records matches, log') \<Rightarrow> (matches, log')
      | (_, log') \<Rightarrow> ([], log'))"

definition is_same_person :: "dict \<Rightarrow> airtable_record \<Rightarrow> py_error + bool" where
  "is_same_person new_contact existing_contact =
     (let new_age = dget new_contact ''Age'';
          existing_age = dget (rec_fields existing_contact) ''Age''
      in if truthy new_age \<and> truthy existing_age then
           bind_err (abs_difference new_age existing_age) (\<lambda>diff. Inr (\<not> diff > 5))
         else Inr True)"

text \<open>The loop \<^verbatim>\<open>for contact in matches: if self._is_same_person(...): return contact\<close>.\<close>

fun first_same_person :: "dict \<Rightarrow> airtable_record list \<Rightarrow> py_error + airtable_record option" where
  "first_same_person contact_data [] = Inr None"
| "first_same_person contact_data (contact # matches) =
     bind_err (is_same_person contact_data contact) (\<lambda>same.
       if same then Inr (Some contact) else first_same_person contact_data matches)"

definition find_existing_contact ::
    "repository \<Rightarrow> dict \<Rightarrow> request list \<Rightarrow> (py_error + airtable_record option) \<times> request list" where
  "find_existing_contact repo contact_data log =
     (case stripped contact_data ''First Name'' of
        Inl e \<Rightarrow> (Inl e, log)
      | Inr first_name \<Rightarrow>
          (case stripped contact_data ''Last Name'' of
             Inl e \<Rightarrow> (Inl e, log)
           | Inr last_name \<Rightarrow>
               if first_name = [] \<or> last_name = [] then (Inr None, log)
               else
                 (case search_contacts_by_name repo first_name last_name log of
                    (matches, log') \<Rightarrow> (first_same_person contact_data matches, log'))))"

text \<open>
  The age rule in the specification's words: a record is ruled out when both ages are present
  and non-zero and differ by more than 5.
\<close>

definition age_incompatible :: "pyval \<Rightarrow> pyval \<Rightarrow> bool" where
  "age_incompatible candidate_age record_age =
     (case (candidate_age, record_age) of
        (PInt a, PInt b) \<Rightarrow> a \<noteq> 0 \<and> b \<noteq> 0 \<and> \<bar>a - b\<bar> > 5
      | _ \<Rightarrow> False)"

fun is_age :: "pyval \<Rightarrow> bool" where
  "is_age PNone = True"
| "is_age (PInt i) = True"
| "is_age v = False"

section \<open>Creating or updating a contact\<close>
















text \<open>
  \<^verbatim>\<open>relation_record_ids\<close>, as both branches compute it: nothing without a mapping or without
  relations.
\<close>

definition relation_record_ids :: "dict \<Rightarrow> id_mapping \<Rightarrow> py_error + pyval list" where
  "relation_record_ids idi_contact contact_id_mapping =
     (if contact_id_mapping \<noteq> [] \<and> truthy (dget idi_contact ''Relations'')
      then bind_err (iterate (dget idi_contact ''Relations''))
             (\<lambda>relation_ids. Inr (translate_relations contact_id_mapping relation_ids))
      else Inr [])"
















section \<open>Properties of the model\<close>

subsection \<open>String literals and name formatting\<close>

lemma lit_eq_iff [simp]: "lit a = lit b \<longleftrightarrow> a = b"
  by (simp add: lit_def inj_map_eq_map inj_on_def)

lemma lit_Nil [simp]: "lit [] = []"
  and lit_eq_Nil [simp]: "lit a = [] \<longleftrightarrow> a = []"
  and Nil_eq_lit [simp]: "[] = lit a \<longleftrightarrow> a = []"
  and length_lit [simp]: "length (lit a) = length a"
  by (auto simp: lit_def)

lemmas char_evs = upper_char_def lower_char_def title_char_def iscased_def islower_char_def
  isupper_char_def istitle_char_def isspace_char_def isdecimal_char_def

lemma prefixes_codes:
  "prefixes = [[77, 99], [77, 97, 99], [79, 39], [68, 101], [86, 97, 110], [86, 111, 110],
               [76, 97], [76, 101]]"
  by (simp add: prefixes_def lit_def)

lemma title_prefixes: "map title prefixes = prefixes"
  by (simp add: prefixes_codes title_def char_evs)

lemma startswith_Nil [simp]: "startswith s [] = True"
  and startswith_Nil_Cons [simp]: "startswith [] (d # p) = False"
  and startswith_Cons [simp]: "startswith (c # s) (d # p) = (c = d \<and> startswith s p)"
  by (auto simp: startswith_def)

lemma startswith_append: "startswith t p \<Longrightarrow> t = p @ drop (length p) t"
  by (metis append_take_drop_id startswith_def)

lemma prefix_step_simp:
  "prefix_step name q = (if startswith name (title q)
      then (case drop (length q) name of [] \<Rightarrow> name | c # r \<Rightarrow> q @ upper [c] @ r)
      else name)"
  by (simp add: prefix_step_def Let_def split: list.splits)

lemma foldl_prefixes_app:
  assumes "p \<in> set prefixes"
  shows "foldl prefix_step (p @ r) prefixes =
         p @ (case r of [] \<Rightarrow> [] | c # r' \<Rightarrow> upper [c] @ r')"
proof -
  have ts: "title [77, 99] = [77, 99]" "title [77, 97, 99] = [77, 97, 99]"
    "title [79, 39] = [79, 39]" "title [68, 101] = [68, 101]" "title [86, 97, 110] = [86, 97, 110]"
    "title [86, 111, 110] = [86, 111, 110]" "title [76, 97] = [76, 97]" "title [76, 101] = [76, 101]"
    using title_prefixes by (simp_all add: prefixes_codes)
  consider "p = [77, 99]" | "p = [77, 97, 99]" | "p = [79, 39]" | "p = [68, 101]"
    | "p = [86, 97, 110]" | "p = [86, 111, 110]" | "p = [76, 97]" | "p = [76, 101]"
    using assms by (auto simp: prefixes_codes)
  then show ?thesis
    by cases (cases r; simp add: prefixes_codes prefix_step_simp ts)+
qed

lemma foldl_prefixes:
  assumes "p \<in> set prefixes" and "startswith t p"
  shows "foldl prefix_step t prefixes =
         p @ (case drop (length p) t of [] \<Rightarrow> [] | c # r \<Rightarrow> upper [c] @ r)"
  using foldl_prefixes_app [OF assms(1), of "drop (length p) t"] startswith_append [OF assms(2)]
  by simp

subsection \<open>The merge loop\<close>

lemma map_of_dset: "map_of (dset d k v) = (map_of d)(k \<mapsto> v)"
  by (simp add: dset_def update_conv')

lemma map_of_copy:
  "distinct (map fst ex) \<Longrightarrow>
   map_of (foldl copy_step m ex) f =
     (if f \<in> fst ` set ex \<and> f \<notin> set excluded_fields then map_of ex f else map_of m f)"
proof (induction ex arbitrary: m)
  case Nil
  then show ?case by simp
next
  case (Cons a ex)
  then show ?case
    by (cases a) (auto simp: copy_step_def map_of_dset image_iff)
qed

lemma merge_loop_other:
  "merge_loop new ex fs m = Inr m' \<Longrightarrow> f \<notin> set fs \<Longrightarrow> map_of m' f = map_of m f"
  by (induction fs arbitrary: m) (auto simp: Let_def map_of_dset split: if_splits sum.splits)

lemma merge_loop_Cons:
  assumes "merge_loop new ex (g # fs) m = Inr m'"
  shows "\<exists>m1. merge_loop new ex fs m1 = Inr m' \<and>
              map_of m1 g = merged_value new ex g (map_of m g) \<and>
              (\<forall>f. f \<noteq> g \<longrightarrow> map_of m1 f = map_of m f)"
proof (cases "is_field_empty (dget ex g) \<and> truthy (dget new g)")
  case True
  note c = True
  show ?thesis
  proof (cases "g = ''Phone''")
    case True
    then obtain v where v: "format_phone_number (dget new g) = Inr v"
      and r: "merge_loop new ex fs (dset m g v) = Inr m'"
      using assms c by (auto simp: Let_def split: sum.splits)
    show ?thesis
      using r v c True by (intro exI [of _ "dset m g v"]) (auto simp: merged_value_def map_of_dset)
  next
    case False
    let ?v = "clean_and_format_text (dget new g) (get_field_type g)"
    have r: "merge_loop new ex fs (dset m g ?v) = Inr m'"
      using assms c False by (simp add: Let_def)
    show ?thesis
      using r c False by (intro exI [of _ "dset m g ?v"]) (auto simp: merged_value_def map_of_dset)
  qed
next
  case False
  note c = False
  show ?thesis
  proof (cases "truthy (dget ex g)")
    case True
    have r: "merge_loop new ex fs (dset m g (dget ex g)) = Inr m'"
      using assms c True by (auto simp: Let_def)
    show ?thesis
      using r c True by (intro exI [of _ "dset m g (dget ex g)"]) (auto simp: merged_value_def map_of_dset)
  next
    case False
    have r: "merge_loop new ex fs m = Inr m'"
      using assms c False by (auto simp: Let_def)
    show ?thesis
      using r c False by (intro exI [of _ m]) (auto simp: merged_value_def)
  qed
qed

lemma merge_loop_field:
  "merge_loop new ex fs m = Inr m' \<Longrightarrow> distinct fs \<Longrightarrow> f \<in> set fs \<Longrightarrow>
   map_of m' f = merged_value new ex f (map_of m f)"
proof (induction fs arbitrary: m)
  case Nil
  then show ?case by simp
next
  case (Cons g fs)
  obtain m1 where r: "merge_loop new ex fs m1 = Inr m'"
    and g: "map_of m1 g = merged_value new ex g (map_of m g)"
    and o: "\<And>f. f \<noteq> g \<Longrightarrow> map_of m1 f = map_of m f"
    using merge_loop_Cons [OF Cons.prems(1)] by blast
  show ?case
  proof (cases "f = g")
    case True
    then have "f \<notin> set fs" using Cons.prems by simp
    then have "map_of m' f = map_of m1 f" using merge_loop_other [OF r] by simp
    then show ?thesis using g True by simp
  next
    case False
    then have "map_of m' f = merged_value new ex f (map_of m1 f)"
      using Cons.IH [OF r] Cons.prems by simp
    then show ?thesis using o [OF False] by simp
  qed
qed


lemma merge_loop_returns:
  "\<not> truthy (dget new ''Phone'') \<or> is_str (dget new ''Phone'') \<Longrightarrow>
   \<exists>m'. merge_loop new ex fs m = Inr m'"
proof (induction fs arbitrary: m)
  case Nil
  then show ?case by simp
next
  case (Cons g fs)
  have "\<exists>v. format_phone_number (dget new ''Phone'') = Inr v"
    using Cons.prems by (cases "dget new ''Phone''") (auto simp: format_phone_number_def Let_def)
  then show ?case using Cons by (auto simp: Let_def)
qed


lemma merge_fields_distinct: "distinct merge_fields"
  by (simp add: merge_fields_def)

lemma merge_field_not_excluded: "f \<in> set merge_fields \<Longrightarrow> f \<notin> set excluded_fields"
  by (auto simp: merge_fields_def excluded_fields_def)

lemma merge_field_not_initial:
  "f \<in> set merge_fields \<Longrightarrow> f \<noteq> ''IDI'' \<and> f \<noteq> ''Traced'' \<and> f \<noteq> ''Entity Type''"
  by (auto simp: merge_fields_def)

lemma merged_value_existing:
  "map_of ex f = before \<Longrightarrow> \<not> (is_field_empty (dget ex f) \<and> truthy (dget new f)) \<Longrightarrow>
   merged_value new ex f before = map_of ex f"
  by (auto simp: merged_value_def dget_def split: option.splits)

lemma merge_contact_data_field:
  assumes f: "field \<in> set merge_fields"
    and d: "distinct (map fst (rec_fields existing))"
    and m: "merge_contact_data new existing = Inr merged"
  shows "map_of merged field = merged_value new (rec_fields existing) field (map_of (rec_fields existing) field)"
proof -
  let ?ex = "rec_fields existing"
  let ?m0 = "foldl copy_step [(''IDI'', PBool True), (''Traced'', PBool True),
                           (''Entity Type'', PStr (lit ''Person''))] ?ex"
  have l: "merge_loop new ?ex merge_fields ?m0 = Inr merged"
    using m by (simp add: merge_contact_data_def Let_def)
  have "map_of ?m0 field = map_of ?ex field"
  proof (cases "field \<in> fst ` set ?ex")
    case True
    then show ?thesis
      using merge_field_not_excluded [OF f] by (simp add: map_of_copy [OF d])
  next
    case False
    then have "map_of ?ex field = None" by (simp add: map_of_eq_None_iff)
    then show ?thesis
      using False merge_field_not_initial [OF f] by (simp add: map_of_copy [OF d])
  qed
  then show ?thesis
    using merge_loop_field [OF l merge_fields_distinct f] by simp
qed

lemma merge_contact_data_returns:
  "\<not> truthy (dget new ''Phone'') \<or> is_str (dget new ''Phone'') \<Longrightarrow>
   \<exists>merged. merge_contact_data new existing = Inr merged"
  by (simp add: merge_contact_data_def Let_def merge_loop_returns)

text \<open>
  On the values a JSON scalar field takes, "non-empty" as truthiness and as the negation of
  \<^verbatim>\<open>_is_field_empty\<close> agree, but for a string of whitespace only (truthy, yet empty).
\<close>

lemma strip_Nil: "strip [] = []"
  by (simp add: strip_def)

lemma truthy_iff_not_empty:
  "v = PNone \<or> v = PBool b \<or> v = PInt i \<or> (v = PStr s \<and> (s = [] \<or> strip s \<noteq> [])) \<Longrightarrow>
   truthy v = (\<not> is_field_empty v)"
  using strip_Nil by (cases v) auto

text \<open>The formatting the merge applies is the formatting by field class.\<close>

lemma foldl_prefixes_none:
  assumes "\<forall>q \<in> set prefixes. \<not> startswith t q"
  shows "foldl prefix_step t prefixes = t"
proof -
  have "\<forall>q \<in> set prefixes. prefix_step t q = t"
    using assms title_prefixes
    by (simp add: prefix_step_simp prefixes_codes)
  then show ?thesis by (simp add: prefixes_codes)
qed

lemma title_case_name_spec: "title_case_name t = capitalised_after_prefix (title t)"
proof (cases "find (startswith (title t)) prefixes")
  case None
  then have n: "\<forall>q \<in> set prefixes. \<not> startswith (title t) q"
    by (simp add: find_None_iff)
  have "title [] = []" by (simp add: title_def)
  then show ?thesis
    using None foldl_prefixes_none [OF n]
    by (auto simp: title_case_name_def capitalised_after_prefix_def)
next
  case (Some p)
  then have p: "p \<in> set prefixes" "startswith (title t) p"
    by (auto simp: find_Some_iff)
  have "p \<noteq> []" using p(1) by (auto simp: prefixes_codes)
  then have "title t \<noteq> []" using p(2) by (cases p) auto
  then have "t \<noteq> []" by (auto simp: title_def)
  moreover have "drop (length p) (title t) = [] \<Longrightarrow> title t = p"
    using startswith_append [OF p(2)] by simp
  ultimately show ?thesis
    using Some foldl_prefixes [OF p]
    by (auto simp: title_case_name_def capitalised_after_prefix_def split: list.splits)
qed

lemma format_phone_number_spec:
  "s \<noteq> [] \<Longrightarrow> format_phone_number (PStr s) = Inr (PStr (phone_format s))"
  by (simp add: format_phone_number_def phone_format_def national_format_def Let_def)

lemma clean_and_format_text_spec:
  "field \<noteq> ''Phone'' \<Longrightarrow> truthy v \<Longrightarrow>
   clean_and_format_text v (get_field_type field) = formatted field v"
  by (cases v)
     (auto simp: clean_and_format_text_def get_field_type_def formatted_def name_fields_def
        title_case_name_spec Let_def)

subsection \<open>The deduplicating loop\<close>

lemmas read_evs = stripped_def or_else_def dget_def dget_default_def strip_def name_key_def
  lower_def relation_to_owner_def normalized_name_def readable_def lit_def char_evs







subsection \<open>The identity matcher\<close>

lemma is_same_person_age:
  assumes "is_age (dget c ''Age'')" and "is_age (dget (rec_fields m) ''Age'')"
  shows "is_same_person c m = Inr (\<not> age_incompatible (dget c ''Age'') (dget (rec_fields m) ''Age''))"
  using assms
  by (cases "dget c ''Age''"; cases "dget (rec_fields m) ''Age''")
     (auto simp: is_same_person_def age_incompatible_def abs_difference_def Let_def)

lemma first_same_person_find:
  assumes "is_age (dget c ''Age'')" and "\<forall>m \<in> set ms. is_age (dget (rec_fields m) ''Age'')"
  shows "first_same_person c ms =
         Inr (find (\<lambda>m. \<not> age_incompatible (dget c ''Age'') (dget (rec_fields m) ''Age'')) ms)"
  using assms(2) by (induction ms) (simp_all add: is_same_person_age [OF assms(1)])


subsection \<open>Creating or updating a contact\<close>













section \<open>Claims\<close>

text \<open>
  C10. Name-field formatting (\<^verbatim>\<open>clean_and_format_text\<close> with field type \<^verbatim>\<open>name\<close>), for every
  string: whenever the title-cased form of the stripped name begins with one of the prefixes
  Mc, Mac, O', De, Van, Von, La, Le, the result is that prefix, then the upper-case form of
  the character right after the prefix, then the rest of the title-cased name unchanged.
  Nothing tells a real prefix from a name that merely starts with those letters: "mcdowell"
  gives "McDowell", and "dennis" gives "DeNnis", "lance" gives "LaNce"; and "leon" written with
  an accented o (code point 243) gives "Le", the capital accented O (code point 211), "n".
\<close>

theorem name_prefix_capitalised:
  assumes "p \<in> set prefixes" and "startswith (title (strip s)) p"
  shows "clean_and_format_text (PStr s) ''name'' =
         PStr (p @ (case drop (length p) (title (strip s)) of
                      [] \<Rightarrow> [] | c # r \<Rightarrow> upper [c] @ r))"
proof -
  have "p \<noteq> []" using assms(1) by (auto simp: prefixes_codes)
  then have "title (strip s) \<noteq> []" using assms(2) by (cases p) auto
  then have "strip s \<noteq> []" by (auto simp: title_def)
  moreover have "s \<noteq> []" using calculation by (auto simp: strip_def)
  ultimately show ?thesis
    by (simp add: clean_and_format_text_def title_case_name_def foldl_prefixes [OF assms])
qed

theorem name_prefix_capitalised_witness:
  "lit ''De'' \<in> set prefixes \<and> startswith (title (strip (lit ''dennis''))) (lit ''De'') \<and>
   clean_and_format_text (PStr (lit ''dennis'')) ''name'' = PStr (lit ''DeNnis'') \<and>
   lit ''La'' \<in> set prefixes \<and> startswith (title (strip (lit ''lance''))) (lit ''La'') \<and>
   clean_and_format_text (PStr (lit ''lance'')) ''name'' = PStr (lit ''LaNce'') \<and>
   lit ''Mc'' \<in> set prefixes \<and> startswith (title (strip (lit ''mcdowell''))) (lit ''Mc'') \<and>
   clean_and_format_text (PStr (lit ''mcdowell'')) ''name'' = PStr (lit ''McDowell'') \<and>
   lit ''Le'' \<in> set prefixes \<and> startswith (title (strip (lit ''le'' @ [243] @ lit ''n''))) (lit ''Le'') \<and>
   clean_and_format_text (PStr (lit ''le'' @ [243] @ lit ''n'')) ''name'' =
     PStr (lit ''Le'' @ [211] @ lit ''n'')"
proof -
  have t: "title (strip (lit ''dennis'')) = lit ''Dennis''"
    "title (strip (lit ''lance'')) = lit ''Lance''"
    "title (strip (lit ''mcdowell'')) = lit ''Mcdowell''"
    "title (strip (lit ''le'' @ [243] @ lit ''n'')) = lit ''Le'' @ [243] @ lit ''n''"
    by (simp_all add: title_def strip_def lit_def char_evs)
  have p: "lit ''De'' \<in> set prefixes" "lit ''La'' \<in> set prefixes" "lit ''Mc'' \<in> set prefixes"
    "lit ''Le'' \<in> set prefixes"
    by (simp_all add: prefixes_def)
  have s: "startswith (title (strip (lit ''dennis''))) (lit ''De'')"
    "startswith (title (strip (lit ''lance''))) (lit ''La'')"
    "startswith (title (strip (lit ''mcdowell''))) (lit ''Mc'')"
    "startswith (title (strip (lit ''le'' @ [243] @ lit ''n''))) (lit ''Le'')"
    by (simp_all add: title_def strip_def lit_def char_evs)
  have u: "upper [110] = [78]" "upper [100] = [68]" "upper [243] = [211]"
    by (simp_all add: upper_def char_evs)
  show ?thesis
    using name_prefix_capitalised [OF p(1) s(1)] name_prefix_capitalised [OF p(2) s(2)]
      name_prefix_capitalised [OF p(3) s(3)] name_prefix_capitalised [OF p(4) s(4)] p s
    by (simp add: t) (simp add: lit_def u title_def strip_def char_evs)
qed

text \<open>
  C4 (as stated): the merge writes the formatted new value exactly when the existing value is
  empty (none, blank string, numeric zero) and the new value is non-empty, and otherwise keeps
  the existing value. The source tests the new value by truthiness only: a blank new Email of
  two spaces, empty in the claim's own sense, is written (trimmed to the empty string) over an
  existing \<^verbatim>\<open>None\<close>, so the existing value is not kept.
\<close>

theorem merge_blank_counterexample:
  "merge_contact_data [(''Email'', PStr (lit ''  ''))]
     \<lparr>rec_id = lit ''rec1'', rec_fields = [(''Email'', PNone)]\<rparr> =
   Inr [(''IDI'', PBool True), (''Traced'', PBool True), (''Entity Type'', PStr (lit ''Person'')),
        (''Email'', PStr [])] \<and>
   is_field_empty (PStr (lit ''  ''))"
  by (simp add: merge_contact_data_def merge_fields_def excluded_fields_def copy_step_def
      dset_def dget_def get_field_type_def clean_and_format_text_def lower_def strip_def
      lit_def char_evs)

text \<open>
  C4 (amended). Merge rule of \<^verbatim>\<open>_merge_contact_data\<close>, for every field of \<^verbatim>\<open>merge_fields\<close>: the
  merged record holds the formatted new value exactly when the existing value is empty
  (\<^verbatim>\<open>_is_field_empty\<close>: None, blank string, numeric zero or False) and the new value is truthy
  (anything but None, the empty string, zero, False and an empty list or object; a blank
  string is truthy); otherwise the field's binding is the existing record's, unchanged. The
  formatted value is the formatting by field class of the specification, \<open>formatted\<close>: the
  Phone pattern; for other text the trimmed string, with prefix-aware title case for the four
  name fields, lower case for Email, title case for Relation to Owner, and title case for any
  other text that is all upper-case and longer than 2 characters; a value that is not a
  string is written as it is. The existing record is a dictionary (distinct keys), and the
  new Phone is a string or falsy, as \<^verbatim>\<open>re.sub\<close> requires. With existing Phone \<^verbatim>\<open>None\<close> and new
  Phone "5551234567" the merged Phone is "(555) 123-4567"; with existing Phone
  "(555) 999-0000" it is the existing value.
\<close>

theorem merge_rule:
  assumes "field \<in> set merge_fields"
    and "distinct (map fst (rec_fields existing))"
    and "\<not> truthy (dget new ''Phone'') \<or> is_str (dget new ''Phone'')"
  shows "\<exists>merged.
           merge_contact_data new existing = Inr merged \<and>
           map_of merged field =
             (if is_field_empty (dget (rec_fields existing) field) \<and> truthy (dget new field)
              then Some (formatted field (dget new field))
              else map_of (rec_fields existing) field)"
proof -
  obtain merged where m: "merge_contact_data new existing = Inr merged"
    using merge_contact_data_returns [OF assms(3)] by blast
  have v: "map_of merged field =
        merged_value new (rec_fields existing) field (map_of (rec_fields existing) field)"
    by (rule merge_contact_data_field [OF assms(1,2) m])
  have "map_of merged field =
             (if is_field_empty (dget (rec_fields existing) field) \<and> truthy (dget new field)
              then Some (formatted field (dget new field))
              else map_of (rec_fields existing) field)"
  proof (cases "is_field_empty (dget (rec_fields existing) field) \<and> truthy (dget new field)")
    case False
    then show ?thesis
      using v merged_value_existing [of "rec_fields existing" field _ new] by auto
  next
    case True
    show ?thesis
    proof (cases "field = ''Phone''")
      case False
      then show ?thesis
        using v True clean_and_format_text_spec [of field "dget new field"]
        by (simp add: merged_value_def)
    next
      case p: True
      then obtain s where s: "dget new ''Phone'' = PStr s" "s \<noteq> []"
        using True assms(3) by (cases "dget new ''Phone''") auto
      then show ?thesis
        using v True p format_phone_number_spec [OF s(2)]
        by (simp add: merged_value_def formatted_def)
    qed
  qed
  then show ?thesis using m by blast
qed

theorem merge_rule_witness:
  "(\<exists>merged. merge_contact_data [(''Phone'', PStr (lit ''5551234567''))]
        \<lparr>rec_id = lit ''rec1'', rec_fields = [(''Phone'', PNone)]\<rparr> = Inr merged \<and>
      map_of merged ''Phone'' = Some (PStr (lit ''(555) 123-4567''))) \<and>
   (\<exists>merged. merge_contact_data [(''Phone'', PStr (lit ''5551234567''))]
        \<lparr>rec_id = lit ''rec1'', rec_fields = [(''Phone'', PStr (lit ''(555) 999-0000''))]\<rparr> = Inr merged \<and>
      map_of merged ''Phone'' = Some (PStr (lit ''(555) 999-0000''))) \<and>
   (\<exists>merged. merge_contact_data [(''Last Name'', PStr (lit '' mcDOWELL ''))]
        \<lparr>rec_id = lit ''rec1'', rec_fields = [(''Last Name'', PStr (lit '' ''))]\<rparr> = Inr merged \<and>
      map_of merged ''Last Name'' = Some (PStr (lit ''McDowell'')))"
proof -
  have f: "''Phone'' \<in> set merge_fields" "''Last Name'' \<in> set merge_fields"
    by (simp_all add: merge_fields_def)
  have p: "\<not> truthy (dget [(''Phone'', PStr (lit ''5551234567''))] ''Phone'') \<or>
           is_str (dget [(''Phone'', PStr (lit ''5551234567''))] ''Phone'')"
    and q: "\<not> truthy (dget [(''Last Name'', PStr (lit '' mcDOWELL ''))] ''Phone'') \<or>
           is_str (dget [(''Last Name'', PStr (lit '' mcDOWELL ''))] ''Phone'')"
    by (simp_all add: dget_def)
  have d1: "distinct (map fst (rec_fields \<lparr>rec_id = lit ''rec1'', rec_fields = [(''Phone'', PNone)]\<rparr>))"
    and d2: "distinct (map fst (rec_fields
               \<lparr>rec_id = lit ''rec1'', rec_fields = [(''Phone'', PStr (lit ''(555) 999-0000''))]\<rparr>))"
    and d3: "distinct (map fst (rec_fields
               \<lparr>rec_id = lit ''rec1'', rec_fields = [(''Last Name'', PStr (lit '' ''))]\<rparr>))"
    by simp_all
  have n: "formatted ''Phone'' (PStr (lit ''5551234567'')) = PStr (lit ''(555) 123-4567'')"
    by (simp add: formatted_def phone_format_def national_format_def lit_def char_evs)
  have l: "formatted ''Last Name'' (PStr (lit '' mcDOWELL '')) = PStr (lit ''McDowell'')"
    by (simp add: formatted_def name_fields_def capitalised_after_prefix_def prefixes_codes
        title_def strip_def upper_def lit_def char_evs)
  have e: "\<not> is_field_empty (PStr (lit ''(555) 999-0000''))" "is_field_empty (PStr (lit '' ''))"
    by (simp_all add: strip_def lit_def char_evs)
  show ?thesis
    using merge_rule [OF f(1) d1 p] merge_rule [OF f(1) d2 p] merge_rule [OF f(2) d3 q] n l e
    by (auto simp: dget_def)
qed

text \<open>
  C3 (as stated): the merged Deceased and Bankruptcy fields equal the incoming values whatever
  the existing record holds. The merge loop treats the two flags like every other field of
  \<^verbatim>\<open>merge_fields\<close>: an existing \<^verbatim>\<open>True\<close> is preserved, so an incoming \<^verbatim>\<open>False\<close> does not
  replace it.
\<close>

theorem flag_overwrite_counterexample:
  "merge_contact_data [(''Deceased'', PBool False)]
     \<lparr>rec_id = lit ''rec1'', rec_fields = [(''Deceased'', PBool True)]\<rparr> =
   Inr [(''IDI'', PBool True), (''Traced'', PBool True), (''Entity Type'', PStr (lit ''Person'')),
        (''Deceased'', PBool True)] \<and>
   dget [(''Deceased'', PBool False)] ''Deceased'' = PBool False"
  by (simp add: merge_contact_data_def merge_fields_def excluded_fields_def copy_step_def
      dset_def dget_def)

text \<open>
  C3 (amended): for a flag field (Deceased, Bankruptcy) whose existing and incoming values are
  \<^verbatim>\<open>True\<close>, \<^verbatim>\<open>False\<close> or \<^verbatim>\<open>None\<close>/absent, the merged value is \<^verbatim>\<open>True\<close> when the existing or
  the incoming value is \<^verbatim>\<open>True\<close>, and the existing record's value otherwise: an incoming
  \<^verbatim>\<open>True\<close> fills an empty flag, and no incoming value replaces an existing \<^verbatim>\<open>True\<close>.
\<close>

theorem flag_merge:
  assumes "field = ''Deceased'' \<or> field = ''Bankruptcy''"
    and "distinct (map fst (rec_fields existing))"
    and "\<not> truthy (dget new ''Phone'') \<or> is_str (dget new ''Phone'')"
    and "dget new field \<in> {PNone, PBool False, PBool True}"
    and "dget (rec_fields existing) field \<in> {PNone, PBool False, PBool True}"
  shows "\<exists>merged. merge_contact_data new existing = Inr merged \<and>
           dget merged field =
             (if truthy (dget (rec_fields existing) field) \<or> truthy (dget new field)
              then PBool True else dget (rec_fields existing) field)"
proof -
  obtain merged where m: "merge_contact_data new existing = Inr merged"
    using merge_contact_data_returns [OF assms(3)] by blast
  have f: "field \<in> set merge_fields" "field \<noteq> ''Phone''"
    using assms(1) by (auto simp: merge_fields_def)
  have t: "get_field_type field = ''general''"
    using assms(1) by (auto simp: get_field_type_def)
  have "map_of merged field =
        merged_value new (rec_fields existing) field (map_of (rec_fields existing) field)"
    by (rule merge_contact_data_field [OF f(1) assms(2) m])
  then have "dget merged field =
             (if truthy (dget (rec_fields existing) field) \<or> truthy (dget new field)
              then PBool True else dget (rec_fields existing) field)"
    using assms(4,5) f(2)
    by (auto simp: merged_value_def dget_def t clean_and_format_text_def split: option.splits)
  then show ?thesis using m by blast
qed

theorem flag_merge_witness:
  "\<exists>merged. merge_contact_data [(''Deceased'', PBool True)]
        \<lparr>rec_id = lit ''rec1'', rec_fields = [(''Deceased'', PBool False)]\<rparr> = Inr merged \<and>
      dget merged ''Deceased'' = PBool True"
  using flag_merge [of "''Deceased''" "\<lparr>rec_id = lit ''rec1'', rec_fields = [(''Deceased'', PBool False)]\<rparr>"
      "[(''Deceased'', PBool True)]"]
  by (simp add: dget_def)

text \<open>
  C8. The relation graph builder on seed [A], with A.Relations = [B.id],
  B.Relations = [A.id, C.id], C.Relations = [B.id] and maximum depth 1, returns exactly
  [(A, 0), (B, 1)]: B, found at the depth bound, is included; from B, the visited A is not
  queued again and C (depth 2) is not added. A, B, C are any contacts with these identifiers
  and relations, found under their identifiers in the population.
\<close>

theorem network_depth_one:
  assumes "getitem A ''ID'' = Inr a" and "getitem B ''ID'' = Inr b" and "getitem C ''ID'' = Inr c"
    and "contact_by_id a = Some A" and "contact_by_id b = Some B" and "contact_by_id c = Some C"
    and "map_of A ''Relations'' = Some (PList [b])"
    and "map_of B ''Relations'' = Some (PList [a, c])"
    and "map_of C ''Relations'' = Some (PList [b])"
  shows "discover_network contact_by_id [A] 1 = Inr [(A, 0), (B, 1)]"
proof -
  have "A \<noteq> B" using assms(7,8) by auto
  then have ab: "a \<noteq> b" using assms(4,5) by auto
  have "add_contact_and_relations contact_by_id A 0 1
          \<lparr>processed_ids = {}, contacts_to_process = []\<rparr>
        = Inr \<lparr>processed_ids = {a, b}, contacts_to_process = [(A, 0), (B, 1)]\<rparr>"
    using assms ab by (auto simp: dget_default_def Let_def)
  then show ?thesis by (simp add: discover_network_def)
qed

theorem network_depth_one_witness:
  "discover_network
     (map_of [(PInt 1, [(''ID'', PInt 1), (''First Name'', PStr (lit ''Ann'')), (''Relations'', PList [PInt 2])]),
              (PInt 2, [(''ID'', PInt 2), (''First Name'', PStr (lit ''Bob'')),
                        (''Relations'', PList [PInt 1, PInt 3])]),
              (PInt 3, [(''ID'', PInt 3), (''First Name'', PStr (lit ''Cy'')), (''Relations'', PList [PInt 2])])])
     [[(''ID'', PInt 1), (''First Name'', PStr (lit ''Ann'')), (''Relations'', PList [PInt 2])]] 1
   = Inr [([(''ID'', PInt 1), (''First Name'', PStr (lit ''Ann'')), (''Relations'', PList [PInt 2])], 0),
          ([(''ID'', PInt 2), (''First Name'', PStr (lit ''Bob'')), (''Relations'', PList [PInt 1, PInt 3])], 1)]"
  by (rule network_depth_one [where a = "PInt 1" and b = "PInt 2" and c = "PInt 3"
        and C = "[(''ID'', PInt 3), (''First Name'', PStr (lit ''Cy'')), (''Relations'', PList [PInt 2])]"])
     (simp_all add: getitem_def)

text \<open>
  C9. The depth-bounded traversal terminates on every input: every call of
  \<^verbatim>\<open>add_contact_and_relations\<close> and of its loop over the relations is in the domain of the
  recursion (the accessible part of its call relation), whatever the population, the contact,
  the depth, the bound and the visited set, so also on cyclic, mutual and self-referencing
  \<^verbatim>\<open>Relations\<close>; the seed loop is a structural recursion over the seed list. On a population
  of two contacts that list each other, the first also itself, the traversal from both seeds
  returns each contact once.
\<close>

theorem traversal_terminates:
  "add_contact_and_relations_add_relations_dom (Inl (contact_by_id, contact, depth, max_depth, st)) \<and>
   add_contact_and_relations_add_relations_dom (Inr (contact_by_id, relation_ids, depth, max_depth, st)) \<and>
   discover_network
     (map_of [(PInt 1, [(''ID'', PInt 1), (''Relations'', PList [PInt 2, PInt 1])]),
              (PInt 2, [(''ID'', PInt 2), (''Relations'', PList [PInt 1])])])
     [[(''ID'', PInt 1), (''Relations'', PList [PInt 2, PInt 1])],
      [(''ID'', PInt 2), (''Relations'', PList [PInt 1])]] 2
   = Inr [([(''ID'', PInt 1), (''Relations'', PList [PInt 2, PInt 1])], 0),
          ([(''ID'', PInt 2), (''Relations'', PList [PInt 1])], 1)]"
proof -
  have "All add_contact_and_relations_add_relations_dom"
    by (relation "measures [\<lambda>x. case x of
          Inl (cbi, c, d, md, st) \<Rightarrow> (if d > md then 1 else 2 * nat (md - d) + 3)
        | Inr (cbi, rs, d, md, st) \<Rightarrow> (if d > md then 2 else 2 * nat (md - d) + 4),
        \<lambda>x. case x of Inl _ \<Rightarrow> 0 | Inr (cbi, rs, d, md, st) \<Rightarrow> length rs]")
       auto
  moreover have "discover_network
     (map_of [(PInt 1, [(''ID'', PInt 1), (''Relations'', PList [PInt 2, PInt 1])]),
              (PInt 2, [(''ID'', PInt 2), (''Relations'', PList [PInt 1])])])
     [[(''ID'', PInt 1), (''Relations'', PList [PInt 2, PInt 1])],
      [(''ID'', PInt 2), (''Relations'', PList [PInt 1])]] 2
   = Inr [([(''ID'', PInt 1), (''Relations'', PList [PInt 2, PInt 1])], 0),
          ([(''ID'', PInt 2), (''Relations'', PList [PInt 1])], 1)]"
    by (simp add: discover_network_def getitem_def dget_default_def Let_def)
  ultimately show ?thesis by simp
qed

text \<open>
  C1. Relationship propagation is claimed symmetric: with mapping {1: extA, 2: extB} and
  contact 1 listing 2 in its \<^verbatim>\<open>Relations\<close>, the update calls should leave extA related to extB
  and extB related to extA, even when contact 2 does not list 1.
  \<^verbatim>\<open>update_bidirectional_relations\<close> on that input, with a repository that accepts every
  call: one update is issued, for extA; no call sets the relations of extB.
\<close>

theorem propagation_one_directional:
  "update_bidirectional_relations accepting
     [([(''ID'', PInt 1), (''Relations'', PList [PInt 2])], 0),
      ([(''ID'', PInt 2), (''Relations'', PList [])], 1)]
     [(PInt 1, lit ''extA''), (PInt 2, lit ''extB'')] []
   = (Inr 1, [Update contacts_table (lit ''extA'') [(''Relations'', PList [PStr (lit ''extB'')])]]) \<and>
   persisted_relations [Update contacts_table (lit ''extA'') [(''Relations'', PList [PStr (lit ''extB'')])]]
     (lit ''extA'') = Some (PList [PStr (lit ''extB'')]) \<and>
   persisted_relations [Update contacts_table (lit ''extA'') [(''Relations'', PList [PStr (lit ''extB'')])]]
     (lit ''extB'') = None"
  by (simp add: update_bidirectional_relations_def getitem_def dget_def translate_relations_def
      List.map_filter_simps send_def accepting_def Let_def contacts_table_def)

text \<open>
  C7. The claim: whenever the input holds an Owner record and a non-Owner record with the same
  normalized name, ages within 2 and no suffixes, exactly one of the two survives, the Owner.
  \<^verbatim>\<open>deduplicate_contacts\<close> ("Remove duplicate contacts", "Prioritize Owner over other
  relations") compares a contact only with the record filed under its key in
  \<^verbatim>\<open>seen_contacts\<close>, and a contact kept as a different person is not filed. After an earlier
  Pat Lee aged 60, the Spouse (41) and the Owner (40) are each compared with him alone: all
  three are kept, the Spouse and the Owner side by side. The same three contacts with the
  Parent last give the Owner and the Parent, so the outcome depends on the input order. And
  a non-Owner record whose \<^verbatim>\<open>Relation to Owner\<close> is \<^verbatim>\<open>None\<close>, as the converter writes it,
  makes the comparison raise \<^verbatim>\<open>AttributeError\<close> instead of keeping the Owner.
\<close>

theorem owner_not_prioritised:
  "deduplicate_contacts
     [([(''ID'', PInt 3), (''First Name'', PStr (lit ''Pat'')), (''Last Name'', PStr (lit ''Lee'')),
        (''Age'', PInt 60), (''Relation to Owner'', PStr (lit ''Parent''))], 1),
      ([(''ID'', PInt 2), (''First Name'', PStr (lit ''Pat'')), (''Last Name'', PStr (lit ''Lee'')),
        (''Age'', PInt 41), (''Relation to Owner'', PStr (lit ''Spouse''))], 1),
      ([(''ID'', PInt 1), (''First Name'', PStr (lit ''Pat'')), (''Last Name'', PStr (lit ''Lee'')),
        (''Age'', PInt 40), (''Relation to Owner'', PStr (lit ''Owner''))], 0)]
   = Inr
     [([(''ID'', PInt 3), (''First Name'', PStr (lit ''Pat'')), (''Last Name'', PStr (lit ''Lee'')),
        (''Age'', PInt 60), (''Relation to Owner'', PStr (lit ''Parent''))], 1),
      ([(''ID'', PInt 2), (''First Name'', PStr (lit ''Pat'')), (''Last Name'', PStr (lit ''Lee'')),
        (''Age'', PInt 41), (''Relation to Owner'', PStr (lit ''Spouse''))], 1),
      ([(''ID'', PInt 1), (''First Name'', PStr (lit ''Pat'')), (''Last Name'', PStr (lit ''Lee'')),
        (''Age'', PInt 40), (''Relation to Owner'', PStr (lit ''Owner''))], 0)] \<and>
   deduplicate_contacts
     [([(''ID'', PInt 2), (''First Name'', PStr (lit ''Pat'')), (''Last Name'', PStr (lit ''Lee'')),
        (''Age'', PInt 41), (''Relation to Owner'', PStr (lit ''Spouse''))], 1),
      ([(''ID'', PInt 1), (''First Name'', PStr (lit ''Pat'')), (''Last Name'', PStr (lit ''Lee'')),
        (''Age'', PInt 40), (''Relation to Owner'', PStr (lit ''Owner''))], 0),
      ([(''ID'', PInt 3), (''First Name'', PStr (lit ''Pat'')), (''Last Name'', PStr (lit ''Lee'')),
        (''Age'', PInt 60), (''Relation to Owner'', PStr (lit ''Parent''))], 1)]
   = Inr
     [([(''ID'', PInt 1), (''First Name'', PStr (lit ''Pat'')), (''Last Name'', PStr (lit ''Lee'')),
        (''Age'', PInt 40), (''Relation to Owner'', PStr (lit ''Owner''))], 0),
      ([(''ID'', PInt 3), (''First Name'', PStr (lit ''Pat'')), (''Last Name'', PStr (lit ''Lee'')),
        (''Age'', PInt 60), (''Relation to Owner'', PStr (lit ''Parent''))], 1)] \<and>
   deduplicate_contacts
     [([(''ID'', PInt 1), (''First Name'', PStr (lit ''Pat'')), (''Last Name'', PStr (lit ''Lee'')),
        (''Age'', PInt 40), (''Relation to Owner'', PStr (lit ''Owner''))], 0),
      ([(''ID'', PInt 2), (''First Name'', PStr (lit ''Pat'')), (''Last Name'', PStr (lit ''Lee'')),
        (''Age'', PInt 41), (''Relation to Owner'', PNone)], 1)]
   = Inl AttributeError"
  by (simp add: deduplicate_contacts_def dedup_step_def Let_def read_evs abs_difference_def
      keep_both_def resolve_duplicate_def replace_existing_def dict_eq_def)

text \<open>
  C6. For a candidate with a first and a last name, whose search the repository answers with
  the records \<open>ms\<close>, the identity matcher returns the first record of \<open>ms\<close> that the age rule
  does not rule out (none if there is none), a record being ruled out exactly when both ages
  are present, non-zero and differ by more than 5; a pair in which either side has no age is
  compatible. Ages are integers or absent.
\<close>

theorem first_compatible_match:
  assumes "stripped c ''First Name'' = Inr first_name" and "first_name \<noteq> []"
    and "stripped c ''Last Name'' = Inr last_name" and "last_name \<noteq> []"
    and "repo log (Search first_name last_name) = Records ms"
    and "is_age (dget c ''Age'')" and "\<forall>m \<in> set ms. is_age (dget (rec_fields m) ''Age'')"
  shows "find_existing_contact repo c log =
         (Inr (find (\<lambda>m. \<not> age_incompatible (dget c ''Age'') (dget (rec_fields m) ''Age'')) ms),
          log @ [Search first_name last_name])"
  using assms(1-5)
  by (simp add: find_existing_contact_def search_contacts_by_name_def send_def
      first_same_person_find [OF assms(6,7)])

theorem first_compatible_match_witness:
  "find_existing_contact
     (\<lambda>log req. Records [\<lparr>rec_id = lit ''rec1'', rec_fields = [(''Age'', PInt 50)]\<rparr>,
                          \<lparr>rec_id = lit ''rec2'', rec_fields = [(''Age'', PInt 45)]\<rparr>,
                          \<lparr>rec_id = lit ''rec3'', rec_fields = []\<rparr>])
     [(''First Name'', PStr (lit ''Ann'')), (''Last Name'', PStr (lit ''Ray'')), (''Age'', PInt 40)] []
   = (Inr (Some \<lparr>rec_id = lit ''rec2'', rec_fields = [(''Age'', PInt 45)]\<rparr>), [Search (lit ''Ann'') (lit ''Ray'')]) \<and>
   find_existing_contact
     (\<lambda>log req. Records [\<lparr>rec_id = lit ''rec1'', rec_fields = [(''Age'', PInt 50)]\<rparr>])
     [(''First Name'', PStr (lit ''Ann'')), (''Last Name'', PStr (lit ''Ray''))] []
   = (Inr (Some \<lparr>rec_id = lit ''rec1'', rec_fields = [(''Age'', PInt 50)]\<rparr>), [Search (lit ''Ann'') (lit ''Ray'')])"
proof -
  let ?c = "[(''First Name'', PStr (lit ''Ann'')), (''Last Name'', PStr (lit ''Ray'')), (''Age'', PInt 40)]"
  let ?ms = "[\<lparr>rec_id = lit ''rec1'', rec_fields = [(''Age'', PInt 50)]\<rparr>,
              \<lparr>rec_id = lit ''rec2'', rec_fields = [(''Age'', PInt 45)]\<rparr>,
              \<lparr>rec_id = lit ''rec3'', rec_fields = []\<rparr>]"
  have f: "stripped ?c ''First Name'' = Inr (lit ''Ann'')" "lit ''Ann'' \<noteq> []"
    and l: "stripped ?c ''Last Name'' = Inr (lit ''Ray'')" "lit ''Ray'' \<noteq> []"
    by (simp_all add: read_evs)
  have r: "(\<lambda>log req. Records ?ms) [] (Search (lit ''Ann'') (lit ''Ray'')) = Records ?ms" by simp
  have a: "is_age (dget ?c ''Age'')" "\<forall>m \<in> set ?ms. is_age (dget (rec_fields m) ''Age'')"
    by (simp_all add: dget_def)
  let ?d = "[(''First Name'', PStr (lit ''Ann'')), (''Last Name'', PStr (lit ''Ray''))]"
  let ?ns = "[\<lparr>rec_id = lit ''rec1'', rec_fields = [(''Age'', PInt 50)]\<rparr>]"
  have f': "stripped ?d ''First Name'' = Inr (lit ''Ann'')" "lit ''Ann'' \<noteq> []"
    and l': "stripped ?d ''Last Name'' = Inr (lit ''Ray'')" "lit ''Ray'' \<noteq> []"
    by (simp_all add: read_evs)
  have r': "(\<lambda>log req. Records ?ns) [] (Search (lit ''Ann'') (lit ''Ray'')) = Records ?ns" by simp
  have a': "is_age (dget ?d ''Age'')" "\<forall>m \<in> set ?ns. is_age (dget (rec_fields m) ''Age'')"
    by (simp_all add: dget_def)
  show ?thesis
    using first_compatible_match [of ?c "lit ''Ann''" "lit ''Ray''" "\<lambda>log req. Records ?ms" "[]" ?ms, OF f l r a]
      first_compatible_match [of ?d "lit ''Ann''" "lit ''Ray''" "\<lambda>log req. Records ?ns" "[]" ?ns, OF f' l' r' a']
    by (simp add: dget_def age_incompatible_def)
qed







end
